theory Spec2Isabelle
  imports Complex_Main "HOL-Library.Char_ord" "HOL-Library.List_Lexorder"
begin

section \<open>Python values, exceptions and strings\<close>

text \<open>
  A shallow embedding of \<^verbatim>\<open>shared/hsm.py\<close>. A raised exception is the \<open>Inl\<close> branch of a
  sum; the constructor is the exception class and its argument the message (\<open>str(exc)\<close>).
  \<open>CollaboratorError\<close> stands for any exception raised by code outside this file.
\<close>

datatype exn =
    AssertionError string
  | ValueError string
  | TypeError string
  | AttributeError string
  | CollaboratorError string

fun str_exn :: "exn \<Rightarrow> string" where
  "str_exn (AssertionError m) = m"
| "str_exn (ValueError m) = m"
| "str_exn (TypeError m) = m"
| "str_exn (AttributeError m) = m"
| "str_exn (CollaboratorError m) = m"

definition bind_exn :: "exn + 'a \<Rightarrow> ('a \<Rightarrow> exn + 'b) \<Rightarrow> exn + 'b" where
  "bind_exn m f = (case m of Inl e \<Rightarrow> Inl e | Inr v \<Rightarrow> f v)"

text \<open>\<^verbatim>\<open>assert cond, msg\<close>\<close>

definition assert_exn :: "bool \<Rightarrow> string \<Rightarrow> exn + unit" where
  "assert_exn c msg = (if c then Inr () else Inl (AssertionError msg))"

text \<open>A list comprehension over a function that may raise stops at the first exception.\<close>

fun map_exn :: "('a \<Rightarrow> exn + 'b) \<Rightarrow> 'a list \<Rightarrow> exn + 'b list" where
  "map_exn f [] = Inr []"
| "map_exn f (x # xs) =
     (case f x of
        Inl e \<Rightarrow> Inl e
      | Inr y \<Rightarrow> (case map_exn f xs of Inl e \<Rightarrow> Inl e | Inr ys \<Rightarrow> Inr (y # ys)))"

text \<open>
  The values a decoded JSON document holds. A Python \<open>float\<close> is a finite binary
  fraction; it is modelled by the rational it denotes, which is all that
  \<^verbatim>\<open>int(v) == v\<close> looks at.
\<close>

datatype json =
    JNull
  | JBool bool
  | JInt int
  | JFloat rat
  | JStr string
  | JList "json list"
  | JObj "(string \<times> json) list"

type_synonym dict = "(string \<times> json) list"

text \<open>Python truthiness (\<^verbatim>\<open>if v:\<close>, \<^verbatim>\<open>bool(v)\<close>).\<close>

fun truthy :: "json \<Rightarrow> bool" where
  "truthy JNull = False"
| "truthy (JBool b) = b"
| "truthy (JInt n) = (n \<noteq> 0)"
| "truthy (JFloat q) = (q \<noteq> 0)"
| "truthy (JStr s) = (s \<noteq> [])"
| "truthy (JList l) = (l \<noteq> [])"
| "truthy (JObj d) = (d \<noteq> [])"

text \<open>\<^verbatim>\<open>j.pop(k, dflt)\<close>: the value and the dictionary without the key.\<close>

definition dict_pop :: "dict \<Rightarrow> string \<Rightarrow> json \<Rightarrow> json \<times> dict" where
  "dict_pop j k dflt =
     ((case map_of j k of None \<Rightarrow> dflt | Some v \<Rightarrow> v), filter (\<lambda>kv. fst kv \<noteq> k) j)"

text \<open>Decimal rendering (\<^verbatim>\<open>%d\<close>), zero padding (\<^verbatim>\<open>%06d\<close>), \<^verbatim>\<open>sep.join\<close>, \<^verbatim>\<open>str.lower\<close>.\<close>

definition digit_char :: "nat \<Rightarrow> char" where
  "digit_char d = ''0123456789'' ! d"

fun str_nat :: "nat \<Rightarrow> string" where
  "str_nat n = (if n < 10 then [digit_char n] else str_nat (n div 10) @ [digit_char (n mod 10)])"

declare str_nat.simps [simp del]

definition str_int :: "int \<Rightarrow> string" where
  "str_int i = (if i < 0 then CHR ''-'' # str_nat (nat (- i)) else str_nat (nat i))"

definition fmt_06d :: "nat \<Rightarrow> string" where
  "fmt_06d n = (let s = str_nat n in replicate (6 - length s) CHR ''0'' @ s)"

fun join :: "string \<Rightarrow> string list \<Rightarrow> string" where
  "join sep [] = []"
| "join sep [x] = x"
| "join sep (x # y # ys) = x @ sep @ join sep (y # ys)"

definition lower_char :: "char \<Rightarrow> char" where
  "lower_char c =
     (case map_of (zip ''ABCDEFGHIJKLMNOPQRSTUVWXYZ'' ''abcdefghijklmnopqrstuvwxyz'') c of
        Some d \<Rightarrow> d
      | None \<Rightarrow> c)"

definition lower :: "string \<Rightarrow> string" where
  "lower s = map lower_char s"

section \<open>Collaborators outside the file\<close>

text \<open>
  \<^verbatim>\<open>hsm.py\<close> calls into modules that are not part of it. Each is a parameter:
  \<open>valid_username\<close> is \<^verbatim>\<open>Users.valid_username\<close>, \<open>cleanup_deriv_path\<close> is the function of
  that name in \<^verbatim>\<open>utils\<close> (\<open>None\<close> when it raises), \<open>b58_decode_ok\<close> and \<open>bech32_decode_ok\<close>
  say whether \<^verbatim>\<open>tcc.codecs.b58_decode\<close> and \<^verbatim>\<open>bech32_decode\<close> return,
  \<open>multisig_names\<close> lists \<^verbatim>\<open>ms.name for ms in MultisigWallet.get_all()\<close>,
  \<open>auth_okay\<close> is \<^verbatim>\<open>Users.auth_okay\<close> (it returns a problem or nothing, or raises),
  \<open>render_address\<close> is \<^verbatim>\<open>chain.render_address\<close>, \<open>b2a_hex\<close> is \<^verbatim>\<open>ubinascii.hexlify\<close>.
\<close>

record env =
  valid_username :: "string \<Rightarrow> bool"
  cleanup_deriv_path :: "string \<Rightarrow> string option"
  b58_decode_ok :: "string \<Rightarrow> bool"
  bech32_decode_ok :: "string \<Rightarrow> bool"
  multisig_names :: "string list"
  AE_LONG_SECRET_LEN :: nat
  problem_file_line :: "exn \<Rightarrow> string"
  auth_okay :: "string \<Rightarrow> string \<Rightarrow> int \<Rightarrow> string \<Rightarrow> exn + string option"
  render_address :: "string \<Rightarrow> exn + string"
  b2a_hex :: "string \<Rightarrow> string"

text \<open>
  What one call observes of the outside world: the two readings of \<^verbatim>\<open>utime.time()\<close>
  (in \<^verbatim>\<open>get_time_left\<close> and in \<^verbatim>\<open>record_spend\<close>), the number
  \<^verbatim>\<open>tcc.random.uniform(1000000)\<close> returns, and whether the audit log file could be
  opened on the card.
\<close>

record call_env =
  time_at_query :: int
  time_at_spend :: int
  random_uniform :: nat
  card_available :: bool

section \<open>Policy document fields\<close>

definition LOCAL_PIN_LENGTH :: nat where
  "LOCAL_PIN_LENGTH = 6"

definition MAX_SATS :: int where
  "MAX_SATS = 2100000000000000"

text \<open>
  \<^verbatim>\<open>pop_list\<close>: a missing or falsy field is the empty list, a truthy value that is not a
  list raises. With no \<^verbatim>\<open>cleanup_fcn\<close> the source returns the list itself, which is
  \<open>pop_list j fld Inr\<close> here.
\<close>

definition pop_list :: "dict \<Rightarrow> string \<Rightarrow> (json \<Rightarrow> exn + 'a) \<Rightarrow> exn + ('a list \<times> dict)" where
  "pop_list j fld_name cleanup_fcn =
     (let (v, j') = dict_pop j fld_name JNull in
      if truthy v then
        (case v of
           JList l \<Rightarrow> bind_exn (map_exn cleanup_fcn l) (\<lambda>r. Inr (r, j'))
         | _ \<Rightarrow> Inl (ValueError (''need a list for: '' @ fld_name)))
      else Inr ([], j'))"

text \<open>The inner function \<^verbatim>\<open>cu\<close> of \<^verbatim>\<open>pop_deriv_list\<close>; \<^verbatim>\<open>s.lower()\<close> needs a string.\<close>

fun cu :: "env \<Rightarrow> string \<Rightarrow> string option \<Rightarrow> json \<Rightarrow> exn + string" where
  "cu E fld_name extra_val (JStr s) =
     (if lower s = ''any'' then Inr (lower s)
      else if (case extra_val of None \<Rightarrow> False | Some x \<Rightarrow> x \<noteq> [] \<and> lower s = x)
        then Inr (lower s)
      else (case cleanup_deriv_path E s of
              Some p \<Rightarrow> Inr p
            | None \<Rightarrow> Inl (ValueError (fld_name @ '': invalid path ('' @ s @ '')''))))"
| "cu E fld_name extra_val v = Inl (AttributeError ''lower'')"

definition pop_deriv_list :: "env \<Rightarrow> dict \<Rightarrow> string \<Rightarrow> string option \<Rightarrow> exn + (string list \<times> dict)" where
  "pop_deriv_list E j fld_name extra_val = pop_list j fld_name (cu E fld_name extra_val)"

text \<open>\<^verbatim>\<open>int(v)\<close> on a float truncates towards zero.\<close>

definition py_int :: "rat \<Rightarrow> int" where
  "py_int q = (if q < 0 then \<lceil>q\<rceil> else \<lfloor>q\<rfloor>)"

definition range_checked :: "string \<Rightarrow> int \<Rightarrow> int \<Rightarrow> int \<Rightarrow> dict \<Rightarrow> exn + (int option \<times> dict)" where
  "range_checked fld_name mn mx v j' =
     (if mn \<le> v \<and> v \<le> mx then Inr (Some v, j')
      else Inl (AssertionError (fld_name @ '': must be in range: ['' @ str_int mn @ ''..''
                                 @ str_int mx @ '']'')))"

text \<open>
  \<^verbatim>\<open>pop_int\<close>: \<^verbatim>\<open>int(v) == v\<close> holds for an integer, for a bool (\<^verbatim>\<open>int(True) == True\<close>)
  and for a float with no fraction. For a string \<^verbatim>\<open>int(v)\<close> raises or differs from
  \<^verbatim>\<open>v\<close>; for a list or a dictionary it raises.
\<close>

definition pop_int :: "dict \<Rightarrow> string \<Rightarrow> int \<Rightarrow> int \<Rightarrow> exn + (int option \<times> dict)" where
  "pop_int j fld_name mn mx =
     (let (v, j') = dict_pop j fld_name JNull in
      case v of
        JNull \<Rightarrow> Inr (None, j')
      | JInt n \<Rightarrow> range_checked fld_name mn mx n j'
      | JBool b \<Rightarrow> range_checked fld_name mn mx (if b then 1 else 0) j'
      | JFloat q \<Rightarrow>
          (if of_int (py_int q) = q then range_checked fld_name mn mx (py_int q) j'
           else Inl (AssertionError (fld_name @ '': must be integer'')))
      | JStr s \<Rightarrow> Inl (AssertionError (fld_name @ '': must be integer''))
      | _ \<Rightarrow> Inl (TypeError ''int''))"

definition pop_bool :: "dict \<Rightarrow> string \<Rightarrow> bool \<Rightarrow> bool \<times> dict" where
  "pop_bool j fld_name dflt = (let (v, j') = dict_pop j fld_name (JBool dflt) in (truthy v, j'))"

definition pop_string :: "dict \<Rightarrow> string \<Rightarrow> nat \<Rightarrow> int \<Rightarrow> exn + (string option \<times> dict)" where
  "pop_string j fld_name mn_len mx_len =
     (let (v, j') = dict_pop j fld_name JNull in
      case v of
        JNull \<Rightarrow> Inr (None, j')
      | JStr s \<Rightarrow>
          (if mn_len \<le> length s \<and> int (length s) \<le> mx_len then Inr (Some s, j')
           else Inl (AssertionError (fld_name @ '': length must be '' @ str_nat mn_len @ ''..''
                                      @ str_int mx_len)))
      | _ \<Rightarrow> Inl (AssertionError (fld_name @ '': must be string'')))"

definition assert_empty_dict :: "dict \<Rightarrow> exn + unit" where
  "assert_empty_dict j =
     (if j \<noteq> [] then Inl (ValueError (''Unknown item: '' @ join '', '' (remdups (map fst j))))
      else Inr ())"

text \<open>
  \<^verbatim>\<open>cleanup_whitelist_value\<close>: both decoders raise on a value that is not a string, and so
  does the concatenation of the final message.
\<close>

fun cleanup_whitelist_value :: "env \<Rightarrow> json \<Rightarrow> exn + string" where
  "cleanup_whitelist_value E (JStr s) =
     (if b58_decode_ok E s then Inr s
      else if bech32_decode_ok E s then Inr s
      else Inl (ValueError (''bad whitelist value: '' @ s)))"
| "cleanup_whitelist_value E v = Inl (TypeError ''bad whitelist value'')"

section \<open>ApprovalRule\<close>

record ApprovalRule =
  spent_so_far :: int
  index :: nat
  per_period :: "int option"
  max_amount :: "int option"
  users :: "string list"
  whitelist :: "string list"
  min_users :: "int option"
  local_conf :: bool
  wallet :: "string option"

text \<open>
  The inner function \<^verbatim>\<open>check_user\<close> of \<^verbatim>\<open>ApprovalRule.__init__\<close>. User names are
  strings; an entry of another type is taken to be no known user.
\<close>

fun check_user :: "env \<Rightarrow> json \<Rightarrow> exn + string" where
  "check_user E (JStr u) =
     (if \<not> valid_username E u then Inl (ValueError (''Unknown user: '' @ u)) else Inr u)"
| "check_user E v = Inl (ValueError ''Unknown user'')"

text \<open>
  \<^verbatim>\<open>ApprovalRule.__init__(self, j, idx)\<close>: the fields are popped in the order of the
  source, then the assertions run. A rule that is not a dictionary has no \<^verbatim>\<open>pop\<close> with
  these arguments.
\<close>

definition ApprovalRule_init :: "env \<Rightarrow> json \<Rightarrow> nat \<Rightarrow> exn + ApprovalRule" where
  "ApprovalRule_init E jv idx =
     (case jv of
        JObj j0 \<Rightarrow>
          bind_exn (pop_int j0 ''per_period'' 0 MAX_SATS) (\<lambda>(per_period', j1).
          bind_exn (pop_int j1 ''max_amount'' 0 MAX_SATS) (\<lambda>(max_amount', j2).
          bind_exn (pop_list j2 ''users'' (check_user E)) (\<lambda>(users', j3).
          bind_exn (pop_list j3 ''whitelist'' (cleanup_whitelist_value E)) (\<lambda>(whitelist', j4).
          bind_exn (pop_int j4 ''min_users'' 1 (int (length users'))) (\<lambda>(min_users', j5).
          (let (local_conf', j6) = pop_bool j5 ''local_conf'' False in
          bind_exn (pop_string j6 ''wallet'' 1 20) (\<lambda>(wallet', j7).
          bind_exn (assert_exn (sort (remdups users') = sort users') ''dup users'') (\<lambda>_.
          bind_exn
            (case min_users' of
               None \<Rightarrow> Inr (if users' \<noteq> [] then Some (int (length users')) else None)
             | Some m \<Rightarrow>
                 bind_exn (assert_exn (1 \<le> m \<and> m \<le> int (length users')) ''range'')
                   (\<lambda>_. Inr (Some m))) (\<lambda>min_users''.
          bind_exn
            (case wallet' of
               None \<Rightarrow> Inr ()
             | Some w \<Rightarrow>
                 (if w \<noteq> [] \<and> w \<noteq> ''1''
                  then assert_exn (w \<in> set (multisig_names E)) (''unknown MS wallet: '' @ w)
                  else Inr ())) (\<lambda>_.
          bind_exn (assert_empty_dict j7) (\<lambda>_.
          Inr \<lparr> spent_so_far = 0, index = idx + 1, per_period = per_period',
                max_amount = max_amount', users = users', whitelist = whitelist',
                min_users = min_users'', local_conf = local_conf', wallet = wallet' \<rparr>)))))))))))
      | _ \<Rightarrow> Inl (AttributeError ''pop''))"

definition has_velocity :: "ApprovalRule \<Rightarrow> bool" where
  "has_velocity r = (per_period r \<noteq> None)"

definition json_of_int_option :: "int option \<Rightarrow> json" where
  "json_of_int_option v = (case v of None \<Rightarrow> JNull | Some n \<Rightarrow> JInt n)"

definition json_of_string_option :: "string option \<Rightarrow> json" where
  "json_of_string_option v = (case v of None \<Rightarrow> JNull | Some s \<Rightarrow> JStr s)"

definition to_json :: "ApprovalRule \<Rightarrow> json" where
  "to_json r =
     JObj [(''per_period'', json_of_int_option (per_period r)),
           (''max_amount'', json_of_int_option (max_amount r)),
           (''users'', JList (map JStr (users r))),
           (''min_users'', json_of_int_option (min_users r)),
           (''local_conf'', JBool (local_conf r)),
           (''whitelist'', JList (map JStr (whitelist r))),
           (''wallet'', json_of_string_option (wallet r))]"

text \<open>
  What \<^verbatim>\<open>matches_transaction\<close> and \<^verbatim>\<open>approve_transaction\<close> read of the PSBT object:
  the name of the active multisig wallet (if any), the warnings, and the outputs with
  their change flag.
\<close>

record txout =
  is_change :: bool
  nValue :: int
  scriptPubKey :: string

record psbt =
  active_multisig :: "string option"
  warnings :: "string list"
  outputs :: "txout list"

text \<open>
  \<^verbatim>\<open>ApprovalRule.matches_transaction\<close>. Each \<^verbatim>\<open>assert\<close> is a branch that raises;
  \<^verbatim>\<open>len(given) >= self.min_users\<close> raises a \<open>TypeError\<close> when \<^verbatim>\<open>min_users\<close> is
  \<^verbatim>\<open>None\<close>. The set difference is listed in the order of \<open>dests\<close> for the message.
\<close>

definition matches_transaction ::
  "ApprovalRule \<Rightarrow> psbt \<Rightarrow> string list \<Rightarrow> int \<Rightarrow> string list \<Rightarrow> bool \<Rightarrow> exn + bool" where
  "matches_transaction r p usrs total_out dests local_oked =
     bind_exn
       (case wallet r of
          None \<Rightarrow> Inr ()
        | Some w \<Rightarrow>
            (if w \<noteq> [] then
               (case active_multisig p of
                  Some name \<Rightarrow> assert_exn (w = name) ''wrong wallet''
                | None \<Rightarrow> assert_exn (w = ''1'') ''not multisig'')
             else Inr ())) (\<lambda>_.
     bind_exn
       (case max_amount r of
          None \<Rightarrow> Inr ()
        | Some m \<Rightarrow> assert_exn (total_out \<le> m) ''too much out'') (\<lambda>_.
     bind_exn
       (if whitelist r \<noteq> [] then
          (let diff = remdups (filter (\<lambda>d. d \<notin> set (whitelist r)) dests) in
           assert_exn (diff = []) (''non-whitelisted dest: '' @ join '', '' diff))
        else Inr ()) (\<lambda>_.
     bind_exn
       (if local_conf r then assert_exn local_oked ''local operator didn't confirm''
        else Inr ()) (\<lambda>_.
     bind_exn
       (if users r \<noteq> [] then
          (let given = set (users r) \<inter> set usrs in
           bind_exn (assert_exn (given \<noteq> {}) ''need user(s) confirmation'') (\<lambda>_.
           (case min_users r of
              None \<Rightarrow> Inl (TypeError ''>='')
            | Some m \<Rightarrow>
                assert_exn (int (card given) \<ge> m)
                  (''need more users to confirm (got '' @ str_nat (card given) @ '' of ''
                     @ str_int m @ '')''))))
        else Inr ()) (\<lambda>_.
     bind_exn
       (case per_period r of
          None \<Rightarrow> Inr ()
        | Some pp \<Rightarrow>
            assert_exn (spent_so_far r + total_out \<le> pp) ''would exceed period spending'') (\<lambda>_.
     Inr True))))))"

section \<open>HSMPolicy\<close>

text \<open>
  The attributes of \<^verbatim>\<open>HSMPolicy\<close>. \<^verbatim>\<open>__init__\<close> sets the statistics, the velocity
  window and the local code pair; \<^verbatim>\<open>load\<close> sets the configuration (from \<open>must_log\<close>
  on). \<open>pending_auth\<close> maps a user name to \<open>(token, totp_time)\<close>, \<open>last_refusal\<close> is
  \<^verbatim>\<open>None\<close> until a refusal. \<^verbatim>\<open>period_spends\<close> is assigned once and never read.
\<close>

record HSMPolicy =
  refusals :: nat
  approvals :: nat
  sl_reads :: nat
  pending_auth :: "(string \<times> string \<times> int) list"
  period_started :: int
  local_code_pending :: string
  next_local_code :: string
  last_refusal :: "string option"
  must_log :: bool
  warnings_ok :: bool
  msg_paths :: "string list"
  share_xpubs :: "string list"
  share_addrs :: "string list"
  "notes" :: json
  period :: "int option"
  allow_sl :: "int option"
  set_sl :: "string option"
  rules :: "ApprovalRule list"

text \<open>
  \<^verbatim>\<open>HSMPolicy.__init__\<close>; the argument is what \<^verbatim>\<open>tcc.random.uniform(1000000)\<close> returned.
  The configuration attributes do not exist before \<^verbatim>\<open>load\<close>; they hold the values of an
  empty document here and nothing reads them before \<open>load\<close> has set them.
\<close>

definition HSMPolicy_init :: "nat \<Rightarrow> HSMPolicy" where
  "HSMPolicy_init rnd =
     \<lparr> refusals = 0, approvals = 0, sl_reads = 0, pending_auth = [],
       period_started = 0, local_code_pending = [], next_local_code = fmt_06d rnd,
       last_refusal = None,
       must_log = False, warnings_ok = False, msg_paths = [], share_xpubs = [],
       share_addrs = [], notes = JNull, period = None, allow_sl = None, set_sl = None,
       rules = [] \<rparr>"

text \<open>\<^verbatim>\<open>[ApprovalRule(i, idx) for idx, i in enumerate(lst)]\<close>\<close>

fun load_rules :: "env \<Rightarrow> nat \<Rightarrow> json list \<Rightarrow> exn + ApprovalRule list" where
  "load_rules E idx [] = Inr []"
| "load_rules E idx (i # lst) =
     (case ApprovalRule_init E i idx of
        Inl e \<Rightarrow> Inl e
      | Inr r \<Rightarrow> (case load_rules E (idx + 1) lst of Inl e \<Rightarrow> Inl e | Inr rs \<Rightarrow> Inr (r # rs)))"

definition truthy_int_option :: "int option \<Rightarrow> bool" where
  "truthy_int_option v = (case v of None \<Rightarrow> False | Some n \<Rightarrow> n \<noteq> 0)"

definition truthy_string_option :: "string option \<Rightarrow> bool" where
  "truthy_string_option v = (case v of None \<Rightarrow> False | Some s \<Rightarrow> s \<noteq> [])"

text \<open>
  \<^verbatim>\<open>HSMPolicy.load(self, j)\<close>. The source assigns each attribute as it goes and raises
  from the middle; the model returns the exception alone, or the object with every
  attribute assigned.
\<close>

definition load :: "env \<Rightarrow> HSMPolicy \<Rightarrow> dict \<Rightarrow> exn + HSMPolicy" where
  "load E hsm j0 =
     (let (must_log', j1) = pop_bool j0 ''must_log'' False;
          (warnings_ok', j2) = pop_bool j1 ''warnings_ok'' False in
      bind_exn (pop_deriv_list E j2 ''msg_paths'' None) (\<lambda>(msg_paths', j3).
      bind_exn (pop_deriv_list E j3 ''share_xpubs'' None) (\<lambda>(share_xpubs', j4).
      bind_exn (pop_deriv_list E j4 ''share_addrs'' (Some ''p2sh'')) (\<lambda>(share_addrs', j5).
      (let (notes', j6) = dict_pop j5 ''notes'' JNull in
      bind_exn (pop_int j6 ''period'' 1 (3 * 24 * 60)) (\<lambda>(period', j7).
      bind_exn (pop_int j7 ''allow_sl'' 1 10) (\<lambda>(allow_sl', j8).
      bind_exn (pop_string j8 ''set_sl'' 16 (int (AE_LONG_SECRET_LEN E) - 2)) (\<lambda>(set_sl', j9).
      bind_exn
        (if truthy_string_option set_sl'
         then assert_exn (truthy_int_option allow_sl') ''need allow_sl>=1''
         else Inr ()) (\<lambda>_.
      bind_exn (pop_list j9 ''rules'' Inr) (\<lambda>(lst, j10).
      bind_exn (load_rules E 0 lst) (\<lambda>rules'.
      bind_exn
        (if \<not> truthy_int_option period' \<and> list_ex has_velocity rules'
         then Inl (ValueError ''Needs period to be specified'')
         else Inr ()) (\<lambda>_.
      bind_exn (assert_empty_dict j10) (\<lambda>_.
      Inr (hsm\<lparr> must_log := must_log', warnings_ok := warnings_ok',
                 msg_paths := msg_paths', share_xpubs := share_xpubs',
                 share_addrs := share_addrs', notes := notes', period := period',
                 allow_sl := allow_sl', set_sl := set_sl', rules := rules' \<rparr>))))))))))))))"

text \<open>\<^verbatim>\<open>HSMPolicy.save\<close>: the simple fields in the order of the source, then the rules.\<close>

definition save :: "HSMPolicy \<Rightarrow> exn + dict" where
  "save hsm =
     (let rv = [(''must_log'', JBool (must_log hsm)),
                (''msg_paths'', JList (map JStr (msg_paths hsm))),
                (''share_xpubs'', JList (map JStr (share_xpubs hsm))),
                (''share_addrs'', JList (map JStr (share_addrs hsm))),
                (''notes'', notes hsm),
                (''period'', json_of_int_option (period hsm)),
                (''allow_sl'', json_of_int_option (allow_sl hsm)),
                (''warnings_ok'', JBool (warnings_ok hsm)),
                (''rules'', JList (map to_json (rules hsm)))] in
      bind_exn (assert_exn (map_of rv ''set_sl'' = None) []) (\<lambda>_. Inr rv))"

subsection \<open>Velocity window\<close>

definition reset_period :: "HSMPolicy \<Rightarrow> HSMPolicy" where
  "reset_period hsm =
     hsm\<lparr> rules := map (\<lambda>r. r\<lparr> spent_so_far := 0 \<rparr>) (rules hsm), period_started := 0 \<rparr>"

text \<open>
  \<^verbatim>\<open>record_spend(self, rule, amt)\<close>: \<open>rule\<close> is one of the objects in \<^verbatim>\<open>self.rules\<close>,
  named here by its position \<open>k\<close> in that list; \<open>now\<close> is \<^verbatim>\<open>utime.time()\<close>.
\<close>

definition record_spend :: "HSMPolicy \<Rightarrow> nat \<Rightarrow> int \<Rightarrow> int \<Rightarrow> HSMPolicy" where
  "record_spend hsm k amt now =
     (let hsm1 = hsm\<lparr> rules := (rules hsm)[k := (rules hsm ! k)\<lparr> spent_so_far :=
                                     spent_so_far (rules hsm ! k) + amt \<rparr>] \<rparr> in
      if period_started hsm1 = 0
      then hsm1\<lparr> period_started := (if now \<noteq> 0 then now else 1) \<rparr>
      else hsm1)"

text \<open>\<^verbatim>\<open>get_time_left\<close>: \<open>None\<close> when the feature is off, \<open>-1\<close> when the window has not started.\<close>

definition get_time_left :: "int \<Rightarrow> HSMPolicy \<Rightarrow> int option \<times> HSMPolicy" where
  "get_time_left now hsm =
     (case period hsm of
        None \<Rightarrow> (None, hsm)
      | Some P \<Rightarrow>
          (if period_started hsm = 0 then (Some (- 1), hsm)
           else
             (let so_far = now - period_started hsm;
                  left = (P * 60) - so_far in
              if left \<le> 0 then (Some (- 1), reset_period hsm)
              else (Some left, hsm))))"

subsection \<open>Local confirmation code\<close>

definition local_pin_entered :: "HSMPolicy \<Rightarrow> string \<Rightarrow> HSMPolicy" where
  "local_pin_entered hsm code = hsm\<lparr> local_code_pending := code \<rparr>"

text \<open>\<^verbatim>\<open>consume_local_code\<close>; \<open>rnd\<close> is what \<^verbatim>\<open>tcc.random.uniform(1000000)\<close> returns.\<close>

definition consume_local_code :: "nat \<Rightarrow> HSMPolicy \<Rightarrow> bool \<times> HSMPolicy" where
  "consume_local_code rnd hsm =
     (let expect = next_local_code hsm;
          got = local_code_pending hsm;
          hsm1 = hsm\<lparr> local_code_pending := [] \<rparr>;
          hsm2 = hsm1\<lparr> next_local_code := fmt_06d rnd \<rparr>
      in (got = expect, hsm2))"

section \<open>AuditLogger\<close>

text \<open>
  What a decision does that can be seen from outside, in the order it does it: a line
  written to the audit log (\<open>Log\<close>), and a call of one of the checks. Each function below
  emits an event exactly where the source makes the call.
\<close>

datatype event =
    Call_get_time_left
  | AuditLogger_entered bool
  | Log string
  | Call_consume_local_code
  | Check_rules_present
  | Check_warnings
  | Call_auth_okay string
  | Call_matches_transaction nat
  | Call_record_spend nat int

text \<open>
  \<^verbatim>\<open>AuditLogger.__enter__\<close>: \<open>card\<close> says whether a card object is held
  (\<^verbatim>\<open>self.card\<close> is not \<^verbatim>\<open>None\<close>); a \<^verbatim>\<open>CardMissingError\<close> or \<^verbatim>\<open>OSError\<close> leaves no card
  and no file name, and the lines go to the console. \<^verbatim>\<open>__exit__\<close> closes the file and
  the card and changes nothing of the policy; no exception reaches it on the paths below.
\<close>

record AuditLogger =
  dirname :: string
  digest :: string
  card :: bool
  fname :: "string option"

definition AuditLogger_enter :: "env \<Rightarrow> call_env \<Rightarrow> string \<Rightarrow> string \<Rightarrow> string \<Rightarrow> AuditLogger" where
  "AuditLogger_enter E W sd_root dir dig =
     (if card_available W
      then \<lparr> dirname = dir, digest = dig, card = True,
             fname = Some (sd_root @ ''/'' @ dir @ ''/''
                           @ b2a_hex E (drop (length dig - 8) dig) @ ''.log'') \<rparr>
      else \<lparr> dirname = dir, digest = dig, card = False, fname = None \<rparr>)"

definition is_unsaved :: "AuditLogger \<Rightarrow> bool" where
  "is_unsaved lg = (\<not> card lg)"

definition refuse :: "HSMPolicy \<Rightarrow> string \<Rightarrow> HSMPolicy \<times> event list" where
  "refuse hsm msg =
     (hsm\<lparr> refusals := refusals hsm + 1, last_refusal := Some msg \<rparr>,
      [Log (CHR 0x0A # ''REFUSED: '' @ msg)])"

definition approve :: "HSMPolicy \<Rightarrow> string \<Rightarrow> HSMPolicy \<times> event list" where
  "approve hsm msg =
     (hsm\<lparr> approvals := approvals hsm + 1, last_refusal := None \<rparr>,
      [Log (CHR 0x0A # ''APPROVED: '' @ msg)])"

section \<open>approve\_transaction\<close>

text \<open>
  The loop over \<^verbatim>\<open>auth.items()\<close>: every pending credential is verified; the first
  problem refuses the transaction, an exception of the collaborator leaves the loop.
\<close>

datatype auth_outcome =
    AuthUsers "string list"
  | AuthProblem string string
  | AuthRaised exn

fun auth_loop ::
  "env \<Rightarrow> (string \<times> string \<times> int) list \<Rightarrow> string \<Rightarrow> string list \<Rightarrow> auth_outcome \<times> event list" where
  "auth_loop E [] psbt_sha usrs = (AuthUsers usrs, [])"
| "auth_loop E ((u, token, counter) # rest) psbt_sha usrs =
     (case auth_okay E u token counter psbt_sha of
        Inl exc \<Rightarrow> (AuthRaised exc, [Call_auth_okay u])
      | Inr problem \<Rightarrow>
          (if truthy_string_option problem
           then (AuthProblem u (the problem), [Call_auth_okay u])
           else (let (res, tr) = auth_loop E rest psbt_sha (usrs @ [u])
                 in (res, Call_auth_okay u # tr))))"

text \<open>The loop over \<^verbatim>\<open>psbt.output_iter()\<close>: total and destinations of the non-change outputs.\<close>

fun tally_outputs :: "env \<Rightarrow> txout list \<Rightarrow> int \<Rightarrow> string list \<Rightarrow> exn + (int \<times> string list)" where
  "tally_outputs E [] total_out dests = Inr (total_out, dests)"
| "tally_outputs E (tx_out # rest) total_out dests =
     (if \<not> is_change tx_out then
        (case render_address E (scriptPubKey tx_out) of
           Inl exc \<Rightarrow> Inl exc
         | Inr a \<Rightarrow> tally_outputs E rest (total_out + nValue tx_out) (dests @ [a]))
      else tally_outputs E rest total_out dests)"

text \<open>
  The \<^verbatim>\<open>for rule in self.rules\<close> loop with its \<^verbatim>\<open>else\<close>: \<open>k\<close> is the position of the
  rule at the head. The result is the position of the rule the loop broke at (\<open>None\<close>
  when it ran to the end), the reasons collected, and the calls made.
\<close>

fun rule_loop ::
  "env \<Rightarrow> ApprovalRule list \<Rightarrow> nat \<Rightarrow> psbt \<Rightarrow> string list \<Rightarrow> int \<Rightarrow> string list \<Rightarrow> bool
     \<Rightarrow> string list \<Rightarrow> nat option \<times> string list \<times> event list" where
  "rule_loop E [] k p usrs total_out dests local_ok reasons = (None, reasons, [])"
| "rule_loop E (rule # rest) k p usrs total_out dests local_ok reasons =
     (case matches_transaction rule p usrs total_out dests local_ok of
        Inr b \<Rightarrow>
          (if b then (Some k, reasons, [Call_matches_transaction k])
           else (let (res, rs, tr) = rule_loop E rest (k + 1) p usrs total_out dests local_ok reasons
                 in (res, rs, Call_matches_transaction k # tr)))
      | Inl exc \<Rightarrow>
          (let r = ''rule #'' @ str_nat (index rule + 1) @ '': '' @ problem_file_line E exc
                     @ '': '' @ str_exn exc;
               (res, rs, tr) = rule_loop E rest (k + 1) p usrs total_out dests local_ok (reasons @ [r])
           in (res, rs, Call_matches_transaction k # tr)))"

text \<open>
  The body of the \<^verbatim>\<open>try\<close> block, in three parts that follow one another in the source.
  Each returns what the block returns (\<open>Inr\<close>) or the exception it raises (\<open>Inl\<close>), the
  policy object as the block left it, and the events of that part.

  Last part, from \<^verbatim>\<open>reasons = []\<close> to \<^verbatim>\<open>return 'y'\<close>: pick a rule, then approve and
  record the spend, or refuse with the reasons. The string \<^verbatim>\<open>msg\<close> built after the loop
  is never used and is left out.
\<close>

definition pick_rule_and_apply ::
  "env \<Rightarrow> call_env \<Rightarrow> HSMPolicy \<Rightarrow> psbt \<Rightarrow> string list \<Rightarrow> int \<Rightarrow> string list \<Rightarrow> bool
     \<Rightarrow> (exn + string) \<times> HSMPolicy \<times> event list" where
  "pick_rule_and_apply E W h1 p usrs total_out dests local_ok =
     (case rule_loop E (rules h1) 0 p usrs total_out dests local_ok [] of
        (None, reasons, tr6) \<Rightarrow>
          (let (h2, tr7) = refuse h1 (''Rejected: '' @ join '', '' reasons)
           in (Inr ''x'', h2, tr6 @ tr7))
      | (Some k, reasons, tr6) \<Rightarrow>
          (let rule = rules h1 ! k;
               (h2, tr7) = approve h1 (''Acceptable by rule #'' @ str_nat (index rule + 1))
           in if per_period rule \<noteq> None
              then (Inr ''y'', record_spend h2 k total_out (time_at_spend W),
                    tr6 @ tr7 @ [Call_record_spend k total_out])
              else (Inr ''y'', h2, tr6 @ tr7)))"

text \<open>
  Middle part, from \<^verbatim>\<open>users = []\<close> to the loop over the outputs: verify the pending
  credentials, log who confirmed, add up the outputs, then go on with the last part.
\<close>

definition verify_and_decide ::
  "env \<Rightarrow> call_env \<Rightarrow> HSMPolicy \<Rightarrow> psbt \<Rightarrow> string \<Rightarrow> (string \<times> string \<times> int) list \<Rightarrow> bool
     \<Rightarrow> (exn + string) \<times> HSMPolicy \<times> event list" where
  "verify_and_decide E W h1 p psbt_sha auth local_ok =
     (case auth_loop E auth psbt_sha [] of
        (AuthRaised exc, tr4) \<Rightarrow> (Inl exc, h1, tr4)
      | (AuthProblem u problem, tr4) \<Rightarrow>
          (let (h2, tr5) = refuse h1 (''User '' @ [CHR 0x27] @ u @ [CHR 0x27]
                                       @ '' gave wrong auth value: '' @ problem)
           in (Inr ''x'', h2, tr4 @ tr5))
      | (AuthUsers usrs, tr4) \<Rightarrow>
          (let tr5 = tr4
                 @ (if local_ok then [Log ''Local operator gave correct code.''] else [])
                 @ (if usrs \<noteq> []
                    then [Log (''These users gave correct auth codes: '' @ join '', '' usrs)]
                    else []) in
           case tally_outputs E (outputs p) 0 [] of
             Inl exc \<Rightarrow> (Inl exc, h1, tr5)
           | Inr (total_out, dests) \<Rightarrow>
               (let (res, h2, tr6) = pick_rule_and_apply E W h1 p usrs total_out dests local_ok
                in (res, h2, tr5 @ tr6))))"

text \<open>
  First part, from \<^verbatim>\<open>local_ok = self.consume_local_code()\<close> to the warnings check, then
  the rest.
\<close>

definition try_body ::
  "env \<Rightarrow> call_env \<Rightarrow> HSMPolicy \<Rightarrow> psbt \<Rightarrow> string \<Rightarrow> (string \<times> string \<times> int) list
     \<Rightarrow> (exn + string) \<times> HSMPolicy \<times> event list" where
  "try_body E W hsm p psbt_sha auth =
     (let (local_ok, h1) = consume_local_code (random_uniform W) hsm;
          tr1 = [Call_consume_local_code, Check_rules_present] in
      if rules h1 = [] then (Inl (ValueError ''no txn signing allowed''), h1, tr1)
      else
        (let tr2 = tr1 @ [Check_warnings] in
         if warnings p \<noteq> [] \<and> \<not> warnings_ok h1
         then (Inl (ValueError (''has '' @ str_nat (length (warnings p)) @ '' warning(s)'')), h1, tr2)
         else
           (let tr3 = tr2 @ (if warnings p \<noteq> []
                             then [Log ''Txn has warnings, but policy is to accept anyway.'']
                             else []);
                (res, h2, tr4) = verify_and_decide E W h1 p psbt_sha auth local_ok
            in (res, h2, tr3 @ tr4))))"

text \<open>
  \<^verbatim>\<open>HSMPolicy.approve_transaction(self, psbt, psbt_sha, story)\<close>. The result is what the
  call returns (\<open>Inr ''x''\<close> or \<open>Inr ''y''\<close>) or the exception that leaves it (\<open>Inl\<close>), the
  policy object afterwards, and the events of the call. \<open>sd_root\<close> is
  \<^verbatim>\<open>card.get_sd_root()\<close>.
\<close>

definition approve_transaction ::
  "env \<Rightarrow> call_env \<Rightarrow> string \<Rightarrow> HSMPolicy \<Rightarrow> psbt \<Rightarrow> string \<Rightarrow> string
     \<Rightarrow> (exn + string) \<times> HSMPolicy \<times> event list" where
  "approve_transaction E W sd_root hsm p psbt_sha story =
     (if \<not> (psbt_sha \<noteq> [] \<and> length psbt_sha = 32) then (Inl (AssertionError []), hsm, [])
      else
        (let (left, hsm1) = get_time_left (time_at_query W) hsm;
             lg = AuditLogger_enter E W sd_root ''psbt'' psbt_sha;
             tr0 = [Call_get_time_left, AuditLogger_entered (card lg)] in
         if must_log hsm1 \<and> is_unsaved lg then
           (let (hsm2, tr) = refuse hsm1 ''Could not log details, and must_log is set''
            in (Inr ''x'', hsm2, tr0 @ tr))
         else
           (let tr1 = tr0 @ [Log ''Transaction signing requested:'',
                             Log (''SHA256(PSBT) = '' @ b2a_hex E psbt_sha),
                             Log (''-vvv-'' @ [CHR 0x0A] @ story @ [CHR 0x0A] @ ''-^^^-'')];
                auth = pending_auth hsm1;
                hsm2 = hsm1\<lparr> pending_auth := [] \<rparr> in
            case try_body E W hsm2 p psbt_sha auth of
              (Inl exc, hsm3, tr2) \<Rightarrow>
                (let (hsm4, tr3) = refuse hsm3 (''Rejected: '' @ problem_file_line E exc
                                                 @ '': '' @ str_exn exc)
                 in (Inr ''x'', hsm4, tr1 @ tr2 @ tr3))
            | (Inr res, hsm3, tr2) \<Rightarrow> (Inr res, hsm3, tr1 @ tr2))))"

section \<open>Properties stated about the program\<close>

text \<open>A local confirmation code: \<^verbatim>\<open>LOCAL_PIN_LENGTH\<close> decimal digits.\<close>

definition is_digit :: "char \<Rightarrow> bool" where
  "is_digit c = (c \<in> set ''0123456789'')"

definition is_local_code :: "string \<Rightarrow> bool" where
  "is_local_code s = (length s = LOCAL_PIN_LENGTH \<and> list_all is_digit s)"

text \<open>The rule with no constraint set, with any spending counter and index.\<close>

definition allow_all_rule :: "int \<Rightarrow> nat \<Rightarrow> ApprovalRule" where
  "allow_all_rule spent i =
     \<lparr> spent_so_far = spent, index = i, per_period = None, max_amount = None, users = [],
       whitelist = [], min_users = None, local_conf = False, wallet = None \<rparr>"



text \<open>
  What the round trip needs of \<^verbatim>\<open>cleanup_deriv_path\<close>, which is outside the file: a cleaned
  path is left as it is when cleaned again, and is not one of the special values
  \<open>any\<close> and \<open>p2sh\<close> in any letter case.
\<close>

definition deriv_paths_canonical :: "env \<Rightarrow> bool" where
  "deriv_paths_canonical E =
     (\<forall>s p. cleanup_deriv_path E s = Some p \<longrightarrow>
        cleanup_deriv_path E p = Some p \<and> lower p \<noteq> ''any'' \<and> lower p \<noteq> ''p2sh'')"

text \<open>What \<^verbatim>\<open>pop_int\<close> and \<^verbatim>\<open>pop_string\<close> guarantee of the value they return.\<close>

definition int_in_range :: "int option \<Rightarrow> int \<Rightarrow> int \<Rightarrow> bool" where
  "int_in_range v mn mx = (case v of None \<Rightarrow> True | Some n \<Rightarrow> mn \<le> n \<and> n \<le> mx)"

definition string_in_range :: "string option \<Rightarrow> nat \<Rightarrow> int \<Rightarrow> bool" where
  "string_in_range v mn mx =
     (case v of None \<Rightarrow> True | Some s \<Rightarrow> mn \<le> length s \<and> int (length s) \<le> mx)"

text \<open>What \<^verbatim>\<open>ApprovalRule.__init__\<close> has checked of a rule it returned at position \<open>idx\<close>.\<close>

definition rule_wf :: "env \<Rightarrow> nat \<Rightarrow> ApprovalRule \<Rightarrow> bool" where
  "rule_wf E idx r =
     (spent_so_far r = 0 \<and> index r = idx + 1
      \<and> int_in_range (per_period r) 0 MAX_SATS
      \<and> int_in_range (max_amount r) 0 MAX_SATS
      \<and> map_exn (check_user E) (map JStr (users r)) = Inr (users r)
      \<and> map_exn (cleanup_whitelist_value E) (map JStr (whitelist r)) = Inr (whitelist r)
      \<and> (case min_users r of
            None \<Rightarrow> users r = []
          | Some m \<Rightarrow> 1 \<le> m \<and> m \<le> int (length (users r)))
      \<and> sort (remdups (users r)) = sort (users r)
      \<and> string_in_range (wallet r) 1 20
      \<and> (case wallet r of
            None \<Rightarrow> True
          | Some w \<Rightarrow> w \<noteq> [] \<and> w \<noteq> ''1'' \<longrightarrow> w \<in> set (multisig_names E)))"

text \<open>What \<^verbatim>\<open>HSMPolicy.load\<close> has checked of a policy it returned.\<close>

definition policy_wf :: "env \<Rightarrow> HSMPolicy \<Rightarrow> bool" where
  "policy_wf E hsm =
     (map_exn (cu E ''msg_paths'' None) (map JStr (msg_paths hsm)) = Inr (msg_paths hsm)
      \<and> map_exn (cu E ''share_xpubs'' None) (map JStr (share_xpubs hsm)) = Inr (share_xpubs hsm)
      \<and> map_exn (cu E ''share_addrs'' (Some ''p2sh'')) (map JStr (share_addrs hsm))
          = Inr (share_addrs hsm)
      \<and> int_in_range (period hsm) 1 (3 * 24 * 60)
      \<and> int_in_range (allow_sl hsm) 1 10
      \<and> load_rules E 0 (map to_json (rules hsm)) = Inr (rules hsm)
      \<and> \<not> (\<not> truthy_int_option (period hsm) \<and> list_ex has_velocity (rules hsm)))"

text \<open>The dictionary \<^verbatim>\<open>HSMPolicy.save\<close> builds.\<close>

definition saved_document :: "HSMPolicy \<Rightarrow> dict" where
  "saved_document hsm =
     [(''must_log'', JBool (must_log hsm)),
      (''msg_paths'', JList (map JStr (msg_paths hsm))),
      (''share_xpubs'', JList (map JStr (share_xpubs hsm))),
      (''share_addrs'', JList (map JStr (share_addrs hsm))),
      (''notes'', notes hsm),
      (''period'', json_of_int_option (period hsm)),
      (''allow_sl'', json_of_int_option (allow_sl hsm)),
      (''warnings_ok'', JBool (warnings_ok hsm)),
      (''rules'', JList (map to_json (rules hsm)))]"

section \<open>Example inputs\<close>

text \<open>
  A device with two users and one multisig wallet, on which path \<open>m\<close> is the one
  derivation path and \<open>addr1\<close> the one address that decodes; every credential with the
  token \<open>good\<close> verifies.
\<close>

definition example_env :: env where
  "example_env =
     \<lparr> valid_username = (\<lambda>u. u = ''alice'' \<or> u = ''bob''),
       cleanup_deriv_path = (\<lambda>s. if s = ''m'' then Some ''m'' else None),
       b58_decode_ok = (\<lambda>s. s = ''addr1''),
       bech32_decode_ok = (\<lambda>s. False),
       multisig_names = [''vault''],
       AE_LONG_SECRET_LEN = 416,
       problem_file_line = (\<lambda>e. ''hsm.py''),
       auth_okay = (\<lambda>u token counter sha. Inr (if token = ''good'' then None else Some ''wrong'')),
       render_address = (\<lambda>s. Inr s),
       b2a_hex = (\<lambda>s. s) \<rparr>"

definition example_call :: call_env where
  "example_call =
     \<lparr> time_at_query = 1000, time_at_spend = 1001, random_uniform = 42, card_available = True \<rparr>"

definition example_psbt :: psbt where
  "example_psbt =
     \<lparr> active_multisig = None, warnings = [],
       outputs = [\<lparr> is_change = False, nValue = 40000, scriptPubKey = ''addr1'' \<rparr>] \<rparr>"

definition example_sha :: string where
  "example_sha = replicate 32 CHR ''s''"

text \<open>A policy with a ten minute period and one rule capped at 100000 per period.\<close>

definition example_velocity_policy :: HSMPolicy where
  "example_velocity_policy =
     (HSMPolicy_init 7)\<lparr> period := Some 10,
                          rules := [(allow_all_rule 0 1)\<lparr> per_period := Some 100000 \<rparr>] \<rparr>"

text \<open>
  Two rules that both accept 40000 sent to \<open>addr1\<close>: allow-all first, then a capped and
  white-listed one.
\<close>

definition example_rules :: "ApprovalRule list" where
  "example_rules =
     [allow_all_rule 0 1,
      (allow_all_rule 0 2)\<lparr> max_amount := Some 50000, whitelist := [''addr1''] \<rparr>]"


text \<open>A call with no card in the slot, and a policy that must log, with a code entered.\<close>

definition example_no_card :: call_env where
  "example_no_card = example_call\<lparr> card_available := False \<rparr>"

definition example_must_log_policy :: HSMPolicy where
  "example_must_log_policy =
     local_pin_entered ((HSMPolicy_init 7)\<lparr> must_log := True, rules := example_rules \<rparr>) ''000007''"


text \<open>
  The policy document with one rule capped at 50000 per transaction, the policy it
  loads as, and a transaction that sends 60000.
\<close>

definition example_capped_document :: dict where
  "example_capped_document = [(''rules'', JList [JObj [(''max_amount'', JInt 50000)]])]"

definition example_capped_policy :: HSMPolicy where
  "example_capped_policy =
     (HSMPolicy_init 7)\<lparr> rules := [(allow_all_rule 0 1)\<lparr> max_amount := Some 50000 \<rparr>] \<rparr>"

definition example_psbt_60000 :: psbt where
  "example_psbt_60000 =
     \<lparr> active_multisig = None, warnings = [],
       outputs = [\<lparr> is_change = False, nValue = 60000, scriptPubKey = ''addr1'' \<rparr>] \<rparr>"

text \<open>
  A policy document with a one-time secret, a rule with a quorum, a white list, a
  wallet and a velocity cap, and an allow-all rule; and the policy it loads as.
\<close>

definition example_document :: dict where
  "example_document =
     [(''must_log'', JBool True),
      (''msg_paths'', JList [JStr ''ANY'']),
      (''share_addrs'', JList [JStr ''P2SH'', JStr ''m'']),
      (''notes'', JStr ''hello''),
      (''period'', JInt 60),
      (''allow_sl'', JInt 1),
      (''set_sl'', JStr ''0123456789abcdef''),
      (''rules'', JList
         [JObj [(''per_period'', JInt 100000),
                (''users'', JList [JStr ''alice'', JStr ''bob'']),
                (''min_users'', JInt 1),
                (''whitelist'', JList [JStr ''addr1'']),
                (''wallet'', JStr ''vault'')],
          JObj []])]"

definition example_loaded_policy :: HSMPolicy where
  "example_loaded_policy =
     (HSMPolicy_init 7)
       \<lparr> must_log := True, warnings_ok := False, msg_paths := [''any''], share_xpubs := [],
         share_addrs := [''p2sh'', ''m''], notes := JStr ''hello'', period := Some 60,
         allow_sl := Some 1, set_sl := Some ''0123456789abcdef'',
         rules := [(allow_all_rule 0 1)\<lparr> per_period := Some 100000,
                      users := [''alice'', ''bob''], whitelist := [''addr1''],
                      min_users := Some 1, wallet := Some ''vault'' \<rparr>,
                   allow_all_rule 0 2] \<rparr>"

section \<open>Auxiliary facts\<close>

lemma digit_char_is_digit: "d < 10 \<Longrightarrow> is_digit (digit_char d)"
proof -
  assume "d < 10"
  then have "d \<in> {0,1,2,3,4,5,6,7,8,9}" by auto
  then show ?thesis by (auto simp: is_digit_def digit_char_def)
qed

lemma str_nat_digits: "list_all is_digit (str_nat n)"
proof (induction n rule: str_nat.induct)
  case (1 n)
  show ?case
  proof (cases "n < 10")
    case True
    then show ?thesis by (subst str_nat.simps) (simp add: digit_char_is_digit)
  next
    case False
    with 1 show ?thesis by (subst str_nat.simps) (simp add: digit_char_is_digit)
  qed
qed

lemma str_nat_length: "n < 10 ^ k \<Longrightarrow> 0 < k \<Longrightarrow> length (str_nat n) \<le> k"
proof (induction n arbitrary: k rule: str_nat.induct)
  case (1 n)
  show ?case
  proof (cases "n < 10")
    case True
    with 1(3) show ?thesis by (subst str_nat.simps) simp
  next
    case False
    then obtain k' where k: "k = Suc k'" using 1(3) by (cases k) auto
    with False 1(2) have "0 < k'" by (cases k') auto
    moreover from k 1(2) have "n div 10 < 10 ^ k'" by (simp add: less_mult_imp_div_less mult.commute)
    ultimately have "length (str_nat (n div 10)) \<le> k'" using 1(1)[OF False] by blast
    with False k show ?thesis by (subst str_nat.simps) simp
  qed
qed

lemma fmt_06d_is_local_code: "n < 1000000 \<Longrightarrow> is_local_code (fmt_06d n)"
proof -
  assume "n < 1000000"
  then have "n < 10 ^ 6" by simp
  then have len: "length (str_nat n) \<le> 6" by (rule str_nat_length) simp
  have z: "is_digit CHR ''0''" by (simp add: is_digit_def)
  have "list_all is_digit (replicate (6 - length (str_nat n)) CHR ''0'')"
    using z by (simp add: list_all_iff)
  with len str_nat_digits [of n] show ?thesis
    by (simp add: is_local_code_def fmt_06d_def LOCAL_PIN_LENGTH_def Let_def)
qed

lemma refuse_fields [simp]:
  "next_local_code (fst (refuse h m)) = next_local_code h"
  "local_code_pending (fst (refuse h m)) = local_code_pending h"
  "rules (fst (refuse h m)) = rules h"
  "period_started (fst (refuse h m)) = period_started h"
  by (simp_all add: refuse_def)

lemma approve_fields [simp]:
  "next_local_code (fst (approve h m)) = next_local_code h"
  "local_code_pending (fst (approve h m)) = local_code_pending h"
  "rules (fst (approve h m)) = rules h"
  "period_started (fst (approve h m)) = period_started h"
  by (simp_all add: approve_def)

lemma record_spend_code [simp]:
  "next_local_code (record_spend h k amt now) = next_local_code h"
  "local_code_pending (record_spend h k amt now) = local_code_pending h"
  by (simp_all add: record_spend_def Let_def)

lemma reset_period_code [simp]:
  "next_local_code (reset_period h) = next_local_code h"
  "local_code_pending (reset_period h) = local_code_pending h"
  by (simp_all add: reset_period_def)

lemma get_time_left_code [simp]:
  "next_local_code (snd (get_time_left now h)) = next_local_code h"
  "local_code_pending (snd (get_time_left now h)) = local_code_pending h"
  "must_log (snd (get_time_left now h)) = must_log h"
  by (simp_all add: get_time_left_def Let_def reset_period_def split: option.splits)

lemma pick_rule_and_apply_code:
  "next_local_code (fst (snd (pick_rule_and_apply E W h p usrs tot dests lok))) = next_local_code h
   \<and> local_code_pending (fst (snd (pick_rule_and_apply E W h p usrs tot dests lok))) = local_code_pending h"
  by (simp add: pick_rule_and_apply_def Let_def split_beta split: option.splits)

lemma verify_and_decide_code:
  "next_local_code (fst (snd (verify_and_decide E W h p sha auth lok))) = next_local_code h
   \<and> local_code_pending (fst (snd (verify_and_decide E W h p sha auth lok))) = local_code_pending h"
  by (simp add: verify_and_decide_def Let_def split_beta pick_rule_and_apply_code
      split: auth_outcome.splits sum.splits)

lemma try_body_code:
  "next_local_code (fst (snd (try_body E W h p sha auth))) = fmt_06d (random_uniform W)
   \<and> local_code_pending (fst (snd (try_body E W h p sha auth))) = []"
  by (simp add: try_body_def consume_local_code_def Let_def split_beta verify_and_decide_code)

lemma approve_transaction_code:
  "next_local_code (fst (snd (approve_transaction E W sdr h p sha story)))
     \<in> {next_local_code h, fmt_06d (random_uniform W)}"
  using try_body_code [of E W "(snd (get_time_left (time_at_query W) h))\<lparr>pending_auth := []\<rparr>" p sha
      "pending_auth (snd (get_time_left (time_at_query W) h))"]
  by (simp add: approve_transaction_def Let_def split_beta split: prod.splits sum.splits)

lemma bind_exn_Inr_iff: "bind_exn m f = Inr y \<longleftrightarrow> (\<exists>x. m = Inr x \<and> f x = Inr y)"
  by (cases m) (simp_all add: bind_exn_def)

lemma load_code: "load E h j = Inr h' \<Longrightarrow> next_local_code h' = next_local_code h \<and> local_code_pending h' = local_code_pending h"
  by (auto simp: load_def Let_def split_beta bind_exn_Inr_iff)


lemma dict_pop_Nil [simp]: "dict_pop [] k d = (d, [])"
  by (simp add: dict_pop_def)

lemma ApprovalRule_init_empty:
  "ApprovalRule_init E (JObj []) idx = Inr (allow_all_rule 0 (idx + 1))"
  by (simp add: ApprovalRule_init_def pop_int_def pop_list_def pop_bool_def pop_string_def
      assert_empty_dict_def assert_exn_def bind_exn_def allow_all_rule_def)

lemma load_allow_all:
  "load E hsm [(''rules'', JList [JObj []])]
     = Inr (hsm\<lparr> must_log := False, warnings_ok := False, msg_paths := [], share_xpubs := [],
                share_addrs := [], notes := JNull, period := None, allow_sl := None,
                set_sl := None, rules := [allow_all_rule 0 1] \<rparr>)"
  by (simp add: load_def pop_bool_def pop_deriv_list_def pop_list_def pop_int_def pop_string_def
      dict_pop_def bind_exn_def assert_exn_def assert_empty_dict_def truthy_string_option_def
      truthy_int_option_def ApprovalRule_init_empty has_velocity_def allow_all_rule_def)




















lemma pop_int_range: "pop_int j fld mn mx = Inr (v, j') \<Longrightarrow> int_in_range v mn mx"
  by (auto simp: pop_int_def range_checked_def int_in_range_def split_beta
      split: json.splits if_splits)

lemma pop_int_reload:
  "dict_pop j fld JNull = (json_of_int_option v, j') \<Longrightarrow> int_in_range v mn mx \<Longrightarrow>
   pop_int j fld mn mx = Inr (v, j')"
  by (cases v) (simp_all add: pop_int_def range_checked_def int_in_range_def json_of_int_option_def)

lemma pop_string_range: "pop_string j fld mn mx = Inr (v, j') \<Longrightarrow> string_in_range v mn mx"
  by (auto simp: pop_string_def string_in_range_def split_beta split: json.splits if_splits)

lemma pop_string_reload:
  "dict_pop j fld JNull = (json_of_string_option v, j') \<Longrightarrow> string_in_range v mn mx \<Longrightarrow>
   pop_string j fld mn mx = Inr (v, j')"
  by (cases v) (simp_all add: pop_string_def string_in_range_def json_of_string_option_def)

lemma pop_bool_reload:
  "dict_pop j fld (JBool d) = (JBool b, j') \<Longrightarrow> pop_bool j fld d = (b, j')"
  by (simp add: pop_bool_def)

lemma map_exn_reload:
  assumes "\<And>v x. f v = Inr x \<Longrightarrow> g (JStr x) = Inr x"
  shows "map_exn f l = Inr xs \<Longrightarrow> map_exn g (map JStr xs) = Inr xs"
proof (induction l arbitrary: xs)
  case Nil
  then show ?case by simp
next
  case (Cons v l)
  from Cons.prems obtain x xs' where x: "f v = Inr x" and xs': "map_exn f l = Inr xs'"
    and xs: "xs = x # xs'"
    by (auto split: sum.splits)
  from assms [OF x] Cons.IH [OF xs'] xs show ?case by simp
qed

lemma pop_list_fixed:
  assumes "\<And>v x. f v = Inr x \<Longrightarrow> g (JStr x) = Inr x"
  shows "pop_list j fld f = Inr (xs, j') \<Longrightarrow> map_exn g (map JStr xs) = Inr xs"
proof -
  assume p: "pop_list j fld f = Inr (xs, j')"
  obtain v j1 where d: "dict_pop j fld JNull = (v, j1)" by force
  show ?thesis
  proof (cases "truthy v")
    case False
    with p d show ?thesis by (simp add: pop_list_def)
  next
    case True
    with p d obtain l where "v = JList l" and "map_exn f l = Inr xs"
      by (cases v) (auto simp: pop_list_def bind_exn_Inr_iff)
    then show ?thesis using map_exn_reload [of f g l xs] assms by blast
  qed
qed

lemma pop_list_reload:
  "dict_pop j fld JNull = (JList (map JStr xs), j') \<Longrightarrow> map_exn g (map JStr xs) = Inr xs \<Longrightarrow>
   pop_list j fld g = Inr (xs, j')"
  by (cases xs) (simp_all add: pop_list_def bind_exn_def)

lemma check_user_fixed: "check_user E v = Inr x \<Longrightarrow> check_user E (JStr x) = Inr x"
  by (cases v) (auto split: if_splits)

lemma cleanup_whitelist_value_fixed:
  "cleanup_whitelist_value E v = Inr x \<Longrightarrow> cleanup_whitelist_value E (JStr x) = Inr x"
  by (cases v) (auto split: if_splits)

lemma lower_any: "lower ''any'' = ''any''"
  by (simp add: lower_def lower_char_def)

lemma lower_p2sh: "lower ''p2sh'' = ''p2sh''"
  by (simp add: lower_def lower_char_def)

lemma cu_fixed:
  assumes can: "deriv_paths_canonical E"
    and ex: "extra = None \<or> extra = Some ''p2sh''"
    and c: "cu E fld extra v = Inr x"
  shows "cu E fld' extra (JStr x) = Inr x"
proof -
  from c obtain s where v: "v = JStr s" by (cases v) auto
  show ?thesis
  proof (cases "lower s = ''any''")
    case True
    with c v have "x = ''any''" by simp
    then show ?thesis by (simp add: lower_any)
  next
    case False
    show ?thesis
    proof (cases "extra = Some ''p2sh'' \<and> lower s = ''p2sh''")
      case True
      with c v False have "x = ''p2sh''" by simp
      with True show ?thesis by (simp add: lower_p2sh)
    next
      case nx: False
      with c v False ex have "cleanup_deriv_path E s = Some x"
        by (auto split: option.splits)
      with can have "cleanup_deriv_path E x = Some x" "lower x \<noteq> ''any''" "lower x \<noteq> ''p2sh''"
        unfolding deriv_paths_canonical_def by blast+
      with ex show ?thesis by auto
    qed
  qed
qed

lemma pop_deriv_list_fixed:
  assumes "deriv_paths_canonical E" and "extra = None \<or> extra = Some ''p2sh''"
    and "pop_deriv_list E j fld extra = Inr (xs, j')"
  shows "map_exn (cu E fld' extra) (map JStr xs) = Inr xs"
  using assms(3) unfolding pop_deriv_list_def
  by (rule pop_list_fixed [rotated]) (rule cu_fixed [OF assms(1,2)])

lemma pop_deriv_list_reload:
  "dict_pop j fld JNull = (JList (map JStr xs), j') \<Longrightarrow>
   map_exn (cu E fld extra) (map JStr xs) = Inr xs \<Longrightarrow>
   pop_deriv_list E j fld extra = Inr (xs, j')"
  unfolding pop_deriv_list_def by (rule pop_list_reload)

lemma bind_exn_InrE:
  assumes "bind_exn m f = Inr y"
  obtains x where "m = Inr x" and "f x = Inr y"
  using assms by (auto simp: bind_exn_Inr_iff)

lemma assert_exn_Inr_iff: "assert_exn c msg = Inr u \<longleftrightarrow> c"
  by (simp add: assert_exn_def)

lemma pop_users_fixed:
  "pop_list j fld (check_user E) = Inr (xs, j') \<Longrightarrow>
   map_exn (check_user E) (map JStr xs) = Inr xs"
  by (erule pop_list_fixed [rotated]) (rule check_user_fixed)

lemma pop_whitelist_fixed:
  "pop_list j fld (cleanup_whitelist_value E) = Inr (xs, j') \<Longrightarrow>
   map_exn (cleanup_whitelist_value E) (map JStr xs) = Inr xs"
  by (erule pop_list_fixed [rotated]) (rule cleanup_whitelist_value_fixed)

lemma ApprovalRule_init_wf:
  "ApprovalRule_init E jv idx = Inr r \<Longrightarrow> rule_wf E idx r"
  apply (cases jv; simp add: ApprovalRule_init_def)
  apply (erule bind_exn_InrE, clarsimp simp: split_beta assert_exn_Inr_iff)+
  apply (erule bind_exn_InrE)+
  apply (clarsimp simp: rule_wf_def)
  apply (frule pop_int_range)
  apply (frule pop_int_range [where fld = "''max_amount''"])
  apply (drule pop_users_fixed)
  apply (drule pop_whitelist_fixed)
  apply (drule pop_string_range)
  apply (auto simp: assert_exn_Inr_iff bind_exn_Inr_iff Suc_le_eq split: option.splits if_splits)
  done

lemma dict_pop_Cons_eq [simp]: "dict_pop ((k, v) # j) k d = (v, filter (\<lambda>kv. fst kv \<noteq> k) j)"
  by (simp add: dict_pop_def)

lemma dict_pop_Cons_neq [simp]:
  "k' \<noteq> k \<Longrightarrow> dict_pop ((k', v) # j) k d = (fst (dict_pop j k d), (k', v) # snd (dict_pop j k d))"
  by (simp add: dict_pop_def)

lemma bind_exn_Inr: "bind_exn (Inr x) f = f x"
  by (simp add: bind_exn_def)

lemma assert_exn_True: "assert_exn True msg = Inr ()"
  by (simp add: assert_exn_def)

lemma assert_empty_dict_Nil: "assert_empty_dict [] = Inr ()"
  by (simp add: assert_empty_dict_def)

lemma ApprovalRule_init_to_json:
  assumes "rule_wf E idx r"
  shows "ApprovalRule_init E (to_json r) idx = Inr r"
proof -
  from assms have
    pp: "int_in_range (per_period r) 0 MAX_SATS" and ma: "int_in_range (max_amount r) 0 MAX_SATS"
    and us: "map_exn (check_user E) (map JStr (users r)) = Inr (users r)"
    and wl: "map_exn (cleanup_whitelist_value E) (map JStr (whitelist r)) = Inr (whitelist r)"
    and mu: "(case min_users r of None \<Rightarrow> users r = []
              | Some m \<Rightarrow> 1 \<le> m \<and> m \<le> int (length (users r)))"
    and dup: "sort (remdups (users r)) = sort (users r)"
    and wa: "string_in_range (wallet r) 1 20"
    and wn: "(case wallet r of None \<Rightarrow> True
              | Some w \<Rightarrow> w \<noteq> [] \<and> w \<noteq> ''1'' \<longrightarrow> w \<in> set (multisig_names E))"
    and sp: "spent_so_far r = 0" and ix: "index r = idx + 1"
    by (simp_all add: rule_wf_def)
  have mur: "int_in_range (min_users r) 1 (int (length (users r)))"
    using mu by (simp add: int_in_range_def split: option.splits)
  have 1: "pop_int
      [(''per_period'', json_of_int_option (per_period r)),
       (''max_amount'', json_of_int_option (max_amount r)),
       (''users'', JList (map JStr (users r))),
       (''min_users'', json_of_int_option (min_users r)),
       (''local_conf'', JBool (local_conf r)),
       (''whitelist'', JList (map JStr (whitelist r))),
       (''wallet'', json_of_string_option (wallet r))] ''per_period'' 0 MAX_SATS
     = Inr (per_period r,
       [(''max_amount'', json_of_int_option (max_amount r)),
       (''users'', JList (map JStr (users r))),
       (''min_users'', json_of_int_option (min_users r)),
       (''local_conf'', JBool (local_conf r)),
       (''whitelist'', JList (map JStr (whitelist r))),
       (''wallet'', json_of_string_option (wallet r))])"
    by (rule pop_int_reload [OF _ pp]) simp
  have 2: "pop_int
      [(''max_amount'', json_of_int_option (max_amount r)),
       (''users'', JList (map JStr (users r))),
       (''min_users'', json_of_int_option (min_users r)),
       (''local_conf'', JBool (local_conf r)),
       (''whitelist'', JList (map JStr (whitelist r))),
       (''wallet'', json_of_string_option (wallet r))] ''max_amount'' 0 MAX_SATS
     = Inr (max_amount r,
       [(''users'', JList (map JStr (users r))),
       (''min_users'', json_of_int_option (min_users r)),
       (''local_conf'', JBool (local_conf r)),
       (''whitelist'', JList (map JStr (whitelist r))),
       (''wallet'', json_of_string_option (wallet r))])"
    by (rule pop_int_reload [OF _ ma]) simp
  have 3: "pop_list
      [(''users'', JList (map JStr (users r))),
       (''min_users'', json_of_int_option (min_users r)),
       (''local_conf'', JBool (local_conf r)),
       (''whitelist'', JList (map JStr (whitelist r))),
       (''wallet'', json_of_string_option (wallet r))] ''users'' (check_user E)
     = Inr (users r,
       [(''min_users'', json_of_int_option (min_users r)),
       (''local_conf'', JBool (local_conf r)),
       (''whitelist'', JList (map JStr (whitelist r))),
       (''wallet'', json_of_string_option (wallet r))])"
    by (rule pop_list_reload [OF _ us]) simp
  have 4: "pop_list
      [(''min_users'', json_of_int_option (min_users r)),
       (''local_conf'', JBool (local_conf r)),
       (''whitelist'', JList (map JStr (whitelist r))),
       (''wallet'', json_of_string_option (wallet r))] ''whitelist'' (cleanup_whitelist_value E)
     = Inr (whitelist r,
       [(''min_users'', json_of_int_option (min_users r)),
       (''local_conf'', JBool (local_conf r)),
       (''wallet'', json_of_string_option (wallet r))])"
    by (rule pop_list_reload [OF _ wl]) simp
  have 5: "pop_int
      [(''min_users'', json_of_int_option (min_users r)),
       (''local_conf'', JBool (local_conf r)),
       (''wallet'', json_of_string_option (wallet r))] ''min_users'' 1 (int (length (users r)))
     = Inr (min_users r,
       [(''local_conf'', JBool (local_conf r)),
       (''wallet'', json_of_string_option (wallet r))])"
    by (rule pop_int_reload [OF _ mur]) simp
  have 6: "pop_bool
      [(''local_conf'', JBool (local_conf r)),
       (''wallet'', json_of_string_option (wallet r))] ''local_conf'' False
     = (local_conf r, [(''wallet'', json_of_string_option (wallet r))])"
    by (rule pop_bool_reload) simp
  have 7: "pop_string [(''wallet'', json_of_string_option (wallet r))] ''wallet'' 1 20
     = Inr (wallet r, [])"
    by (rule pop_string_reload [OF _ wa]) simp
  have 8: "(case min_users r of
               None \<Rightarrow> Inr (if users r \<noteq> [] then Some (int (length (users r))) else None)
             | Some m \<Rightarrow>
                 bind_exn (assert_exn (1 \<le> m \<and> m \<le> int (length (users r))) ''range'')
                   (\<lambda>_. Inr (Some m))) = Inr (min_users r)"
    using mu by (cases "min_users r") (simp_all add: assert_exn_def bind_exn_def)
  have 9: "(case wallet r of
               None \<Rightarrow> Inr ()
             | Some w \<Rightarrow>
                 (if w \<noteq> [] \<and> w \<noteq> ''1''
                  then assert_exn (w \<in> set (multisig_names E)) (''unknown MS wallet: '' @ w)
                  else Inr ())) = Inr ()"
    using wn by (cases "wallet r") (simp_all add: assert_exn_def)
  have r: "\<lparr> spent_so_far = 0, index = idx + 1, per_period = per_period r,
                max_amount = max_amount r, users = users r, whitelist = whitelist r,
                min_users = min_users r, local_conf = local_conf r, wallet = wallet r \<rparr> = r"
    using sp ix by simp
  show ?thesis
    unfolding to_json_def ApprovalRule_init_def json.case
    by (simp only: 1 2 3 4 5 6 7 8 9 bind_exn_Inr prod.case Let_def dup assert_exn_True
        assert_empty_dict_Nil r simp_thms)
qed

lemma load_rules_to_json:
  "load_rules E idx lst = Inr rs \<Longrightarrow> load_rules E idx (map to_json rs) = Inr rs"
proof (induction lst arbitrary: idx rs)
  case Nil
  then show ?case by simp
next
  case (Cons i lst)
  from Cons.prems obtain r rs' where r: "ApprovalRule_init E i idx = Inr r"
    and rs': "load_rules E (idx + 1) lst = Inr rs'" and rs: "rs = r # rs'"
    by (auto split: sum.splits)
  from ApprovalRule_init_to_json [OF ApprovalRule_init_wf [OF r]] Cons.IH [OF rs'] rs
  show ?case by simp
qed

lemma map_exn_Inr: "map_exn Inr l = Inr l"
  by (induction l) simp_all

lemma pop_list_Inr_reload:
  "dict_pop j fld JNull = (JList l, j') \<Longrightarrow> pop_list j fld Inr = Inr (l, j')"
  by (cases l) (simp_all add: pop_list_def bind_exn_def map_exn_Inr)

lemma pop_deriv_list_fixed_None:
  "pop_deriv_list E j fld None = Inr (xs, j') \<Longrightarrow> deriv_paths_canonical E \<Longrightarrow>
   map_exn (cu E fld None) (map JStr xs) = Inr xs"
  by (rule pop_deriv_list_fixed [where extra = None]) simp_all

lemma pop_deriv_list_fixed_p2sh:
  "pop_deriv_list E j fld (Some ''p2sh'') = Inr (xs, j') \<Longrightarrow> deriv_paths_canonical E \<Longrightarrow>
   map_exn (cu E fld (Some ''p2sh'')) (map JStr xs) = Inr xs"
  by (rule pop_deriv_list_fixed [where extra = "Some ''p2sh''"]) simp_all

lemma load_wf:
  "deriv_paths_canonical E \<Longrightarrow> load E h0 doc = Inr hsm \<Longrightarrow> policy_wf E hsm"
  apply (simp add: load_def split_beta Let_def)
  apply (erule bind_exn_InrE, clarsimp simp: split_beta Let_def)+
  apply (erule bind_exn_InrE)+
  apply (clarsimp simp: policy_wf_def)
  apply (drule (1) pop_deriv_list_fixed_None)+
  apply (drule (1) pop_deriv_list_fixed_p2sh)
  apply (drule pop_int_range)+
  apply (drule load_rules_to_json)
  apply (auto split: if_splits)
  done

lemma load_frame:
  "load E h0 doc = Inr hsm \<Longrightarrow>
   hsm = h0\<lparr> must_log := must_log hsm, warnings_ok := warnings_ok hsm,
            msg_paths := msg_paths hsm, share_xpubs := share_xpubs hsm,
            share_addrs := share_addrs hsm, notes := notes hsm, period := period hsm,
            allow_sl := allow_sl hsm, set_sl := set_sl hsm, rules := rules hsm \<rparr>"
  apply (simp add: load_def split_beta Let_def)
  apply (erule bind_exn_InrE, clarsimp simp: split_beta Let_def)+
  apply (erule bind_exn_InrE)+
  apply clarsimp
  done

lemma save_saved_document:
  "save hsm = Inr (saved_document hsm) \<and> map_of (saved_document hsm) ''set_sl'' = None"
  by (simp add: save_def saved_document_def Let_def assert_exn_def bind_exn_def)

lemma load_saved_document:
  assumes "policy_wf E hsm"
  shows "load E h1 (saved_document hsm)
     = Inr (h1\<lparr> must_log := must_log hsm, warnings_ok := warnings_ok hsm,
                msg_paths := msg_paths hsm, share_xpubs := share_xpubs hsm,
                share_addrs := share_addrs hsm, notes := notes hsm, period := period hsm,
                allow_sl := allow_sl hsm, set_sl := None, rules := rules hsm \<rparr>)"
proof -
  from assms have
    mp: "map_exn (cu E ''msg_paths'' None) (map JStr (msg_paths hsm)) = Inr (msg_paths hsm)"
    and sx: "map_exn (cu E ''share_xpubs'' None) (map JStr (share_xpubs hsm)) = Inr (share_xpubs hsm)"
    and sa: "map_exn (cu E ''share_addrs'' (Some ''p2sh'')) (map JStr (share_addrs hsm))
          = Inr (share_addrs hsm)"
    and pe: "int_in_range (period hsm) 1 (3 * 24 * 60)"
    and al: "int_in_range (allow_sl hsm) 1 10"
    and ru: "load_rules E 0 (map to_json (rules hsm)) = Inr (rules hsm)"
    and ve: "\<not> (\<not> truthy_int_option (period hsm) \<and> list_ex has_velocity (rules hsm))"
    by (simp_all add: policy_wf_def)
  let ?j2 = "[(''msg_paths'', JList (map JStr (msg_paths hsm))),
      (''share_xpubs'', JList (map JStr (share_xpubs hsm))),
      (''share_addrs'', JList (map JStr (share_addrs hsm))),
      (''notes'', notes hsm),
      (''period'', json_of_int_option (period hsm)),
      (''allow_sl'', json_of_int_option (allow_sl hsm)),
      (''rules'', JList (map to_json (rules hsm)))]"
  have 1: "pop_bool (saved_document hsm) ''must_log'' False
     = (must_log hsm, tl (saved_document hsm))"
    by (rule pop_bool_reload) (simp add: saved_document_def)
  have 2: "pop_bool (tl (saved_document hsm)) ''warnings_ok'' False = (warnings_ok hsm, ?j2)"
    by (rule pop_bool_reload) (simp add: saved_document_def)
  have 3: "pop_deriv_list E ?j2 ''msg_paths'' None = Inr (msg_paths hsm, tl ?j2)"
    by (rule pop_deriv_list_reload [OF _ mp]) simp
  have 4: "pop_deriv_list E (tl ?j2) ''share_xpubs'' None = Inr (share_xpubs hsm, tl (tl ?j2))"
    by (rule pop_deriv_list_reload [OF _ sx]) simp
  have 5: "pop_deriv_list E (tl (tl ?j2)) ''share_addrs'' (Some ''p2sh'')
     = Inr (share_addrs hsm, tl (tl (tl ?j2)))"
    by (rule pop_deriv_list_reload [OF _ sa]) simp
  have 6: "dict_pop (tl (tl (tl ?j2))) ''notes'' JNull = (notes hsm, tl (tl (tl (tl ?j2))))"
    by simp
  have 7: "pop_int (tl (tl (tl (tl ?j2)))) ''period'' 1 (3 * 24 * 60)
     = Inr (period hsm, tl (tl (tl (tl (tl ?j2)))))"
    by (rule pop_int_reload [OF _ pe]) simp
  have 8: "pop_int (tl (tl (tl (tl (tl ?j2))))) ''allow_sl'' 1 10
     = Inr (allow_sl hsm, [(''rules'', JList (map to_json (rules hsm)))])"
    by (rule pop_int_reload [OF _ al]) simp
  have 9: "pop_string [(''rules'', JList (map to_json (rules hsm)))] ''set_sl'' 16
             (int (AE_LONG_SECRET_LEN E) - 2)
     = Inr (None, [(''rules'', JList (map to_json (rules hsm)))])"
    by (simp add: pop_string_def dict_pop_def)
  have 10: "pop_list [(''rules'', JList (map to_json (rules hsm)))] ''rules'' Inr
     = Inr (map to_json (rules hsm), [])"
    by (rule pop_list_Inr_reload) simp
  have 11: "truthy_string_option None = False" by (simp add: truthy_string_option_def)
  have 12: "(\<not> truthy_int_option (period hsm) \<and> list_ex has_velocity (rules hsm)) = False"
    using ve by simp
  show ?thesis
    unfolding load_def
    by (simp only: 1 2 3 4 5 6 7 8 9 10 11 12 ru bind_exn_Inr prod.case Let_def
        assert_empty_dict_Nil if_False)
qed

lemma example_env_canonical: "deriv_paths_canonical example_env"
  by (simp add: deriv_paths_canonical_def example_env_def lower_def lower_char_def)

lemma example_document_loads:
  "load example_env (HSMPolicy_init 7) example_document = Inr example_loaded_policy"
  by code_simp

section \<open>The local confirmation code\<close>

text \<open>
  C5, as the code has it. Entering a code and consuming it succeeds exactly when the code
  entered equals the expected code issued before. Every consumption, whatever its
  result, clears the pending entry and replaces the expected code by the rendering of a
  fresh random draw. The previously expected code validates on a later consumption
  exactly when that fresh draw renders to the same six digits (and the code is entered
  again): nothing in the code excludes a repeated draw.
\<close>

theorem local_code_consume_fresh_draw:
  "fst (consume_local_code rnd (local_pin_entered hsm code)) = (code = next_local_code hsm)
   \<and> next_local_code (snd (consume_local_code rnd hsm)) = fmt_06d rnd
   \<and> local_code_pending (snd (consume_local_code rnd hsm)) = []
   \<and> fst (consume_local_code rnd' (local_pin_entered (snd (consume_local_code rnd hsm))
                                                       (next_local_code hsm)))
       = (next_local_code hsm = fmt_06d rnd)"
  by (simp add: consume_local_code_def local_pin_entered_def Let_def)

text \<open>
  C5 as stated fails when the generator returns the number it returned before: the policy
  is created with the draw 7, the wrong code \<open>123456\<close> is entered and consumed with the
  draw 7 again. The expected code has not changed, and the previously expected code,
  entered afterwards, validates.
\<close>

theorem local_code_repeated_draw_counterexample:
  "next_local_code (snd (consume_local_code 7 (local_pin_entered (HSMPolicy_init 7) ''123456'')))
     = next_local_code (HSMPolicy_init 7)
   \<and> fst (consume_local_code 8
            (local_pin_entered (snd (consume_local_code 7 (local_pin_entered (HSMPolicy_init 7) ''123456'')))
               (next_local_code (HSMPolicy_init 7))))"
  by (simp add: consume_local_code_def local_pin_entered_def HSMPolicy_init_def Let_def)

text \<open>
  C10. With the generator returning a number below 1000000, as
  \<^verbatim>\<open>tcc.random.uniform(1000000)\<close> does, \<open>next_local_code\<close> is a string of exactly six
  decimal digits after \<^verbatim>\<open>__init__\<close>, and stays one under \<open>consume_local_code\<close>,
  \<open>local_pin_entered\<close>, \<open>reset_period\<close>, \<open>record_spend\<close>, \<open>get_time_left\<close>, \<open>load\<close> and
  \<open>approve_transaction\<close>. Hence a consumption with no code pending returns false.
\<close>

theorem next_local_code_invariant:
  assumes "rnd < 1000000" and "random_uniform W < 1000000"
    and "is_local_code (next_local_code hsm)"
  shows "is_local_code (next_local_code (HSMPolicy_init rnd))
    \<and> is_local_code (next_local_code (snd (consume_local_code rnd hsm)))
    \<and> is_local_code (next_local_code (local_pin_entered hsm code))
    \<and> is_local_code (next_local_code (reset_period hsm))
    \<and> is_local_code (next_local_code (record_spend hsm k amt now))
    \<and> is_local_code (next_local_code (snd (get_time_left now hsm)))
    \<and> (case load E hsm j of Inl e \<Rightarrow> True | Inr hsm' \<Rightarrow> is_local_code (next_local_code hsm'))
    \<and> is_local_code (next_local_code (fst (snd (approve_transaction E W sdr hsm p psbt_sha story))))
    \<and> (local_code_pending hsm = [] \<longrightarrow> \<not> fst (consume_local_code rnd hsm))"
proof -
  have a: "is_local_code (next_local_code (fst (snd (approve_transaction E W sdr hsm p psbt_sha story))))"
    using approve_transaction_code [of E W sdr hsm p psbt_sha story] assms(2,3)
    by (auto simp: fmt_06d_is_local_code)
  have l: "(case load E hsm j of Inl e \<Rightarrow> True | Inr hsm' \<Rightarrow> is_local_code (next_local_code hsm'))"
    using assms(3) by (auto split: sum.splits dest: load_code)
  have c: "local_code_pending hsm = [] \<longrightarrow> \<not> fst (consume_local_code rnd hsm)"
    using assms(3) by (auto simp: consume_local_code_def Let_def is_local_code_def LOCAL_PIN_LENGTH_def)
  show ?thesis
    using assms a l c
    by (simp add: fmt_06d_is_local_code consume_local_code_def Let_def local_pin_entered_def
        HSMPolicy_init_def)
qed

theorem next_local_code_invariant_witness:
  "(42::nat) < 1000000 \<and> random_uniform example_call < 1000000
   \<and> is_local_code (next_local_code (HSMPolicy_init 7))
   \<and> is_local_code (next_local_code (HSMPolicy_init 42))
   \<and> is_local_code (next_local_code (snd (consume_local_code 42 (HSMPolicy_init 7))))
   \<and> is_local_code (next_local_code (fst (snd (approve_transaction example_env example_call ''/sd''
          (HSMPolicy_init 7) example_psbt example_sha ''story''))))
   \<and> local_code_pending (HSMPolicy_init 7) = []
   \<and> \<not> fst (consume_local_code 42 (HSMPolicy_init 7))"
proof -
  have h1: "(42::nat) < 1000000" by simp
  have h2: "random_uniform example_call < 1000000" by (simp add: example_call_def)
  have h3: "is_local_code (next_local_code (HSMPolicy_init 7))"
    by (simp add: HSMPolicy_init_def fmt_06d_is_local_code)
  have h4: "local_code_pending (HSMPolicy_init 7) = []" by (simp add: HSMPolicy_init_def)
  show ?thesis
    using h1 h2 h3 h4
      next_local_code_invariant [OF h1 h2 h3, where E = example_env and sdr = "''/sd''"
        and p = example_psbt and psbt_sha = example_sha and story = "''story''"]
    by simp
qed

section \<open>The allow-all rule\<close>

text \<open>
  C8. The rule document with no field at all is accepted by \<^verbatim>\<open>ApprovalRule.__init__\<close> at
  any position and by \<^verbatim>\<open>HSMPolicy.load\<close> as the only rule of a policy, whatever the
  collaborators answer; the rule it yields has no constraint set, and
  \<open>matches_transaction\<close> succeeds on it for every PSBT, every set of authenticated
  users, every total, every list of destinations and either local confirmation state.
\<close>

theorem allow_all_rule_matches_everything:
  "ApprovalRule_init E (JObj []) idx = Inr (allow_all_rule 0 (idx + 1))
   \<and> (case load E hsm [(''rules'', JList [JObj []])] of
        Inl e \<Rightarrow> False | Inr hsm' \<Rightarrow> rules hsm' = [allow_all_rule 0 1])
   \<and> matches_transaction (allow_all_rule spent i) p usrs total_out dests local_oked = Inr True"
  by (simp add: ApprovalRule_init_empty load_allow_all)
    (simp add: matches_transaction_def allow_all_rule_def bind_exn_def)

section \<open>The velocity window\<close>

text \<open>
  C4. The period is \<open>P\<close> minutes and the window is unstarted, or was started no later
  than \<open>t0\<close>. After \<open>record_spend\<close> of \<open>S1\<close> on the rule at position \<open>k\<close> at time \<open>t0\<close>
  that rule's counter has grown by \<open>S1\<close> and the window is started. \<open>get_time_left\<close> at
  \<open>t0 + P * 60 + 1\<close> then returns \<open>-1\<close> (not started), leaves \<open>period_started = 0\<close> and
  every rule with \<open>spent_so_far = 0\<close>: the rules are the ones before the spend with
  their counters at zero, which is what the velocity check of \<open>matches_transaction\<close>
  reads.
\<close>

theorem velocity_window_reset:
  assumes "period hsm = Some P"
    and "period_started hsm = 0 \<or> period_started hsm \<le> t0"
    and "k < length (rules hsm)"
  shows "spent_so_far (rules (record_spend hsm k S1 t0) ! k) = spent_so_far (rules hsm ! k) + S1
    \<and> period_started (record_spend hsm k S1 t0) \<noteq> 0
    \<and> fst (get_time_left (t0 + P * 60 + 1) (record_spend hsm k S1 t0)) = Some (- 1)
    \<and> period_started (snd (get_time_left (t0 + P * 60 + 1) (record_spend hsm k S1 t0))) = 0
    \<and> list_all (\<lambda>r. spent_so_far r = 0)
         (rules (snd (get_time_left (t0 + P * 60 + 1) (record_spend hsm k S1 t0))))
    \<and> rules (snd (get_time_left (t0 + P * 60 + 1) (record_spend hsm k S1 t0)))
         = map (\<lambda>r. r\<lparr> spent_so_far := 0 \<rparr>) (rules hsm)"
proof -
  let ?h1 = "record_spend hsm k S1 t0"
  have p1: "period ?h1 = Some P" using assms(1) by (simp add: record_spend_def Let_def)
  have s1: "period_started ?h1 \<noteq> 0 \<and> period_started ?h1 \<le> t0 + 1"
    using assms(2) by (auto simp: record_spend_def Let_def)
  have r1: "rules ?h1 = (rules hsm)[k := (rules hsm ! k)\<lparr> spent_so_far := spent_so_far (rules hsm ! k) + S1 \<rparr>]"
    by (simp add: record_spend_def Let_def)
  have g: "get_time_left (t0 + P * 60 + 1) ?h1 = (Some (- 1), reset_period ?h1)"
    using p1 s1 by (simp add: get_time_left_def Let_def)
  have m: "map (\<lambda>r. r\<lparr> spent_so_far := 0 \<rparr>) (rules ?h1) = map (\<lambda>r. r\<lparr> spent_so_far := 0 \<rparr>) (rules hsm)"
    unfolding r1 by (simp add: map_update list_update_same_conv assms(3))
  show ?thesis
    using assms(3) s1 g m r1 by (simp add: reset_period_def list_all_iff)
qed

theorem velocity_window_reset_witness:
  "period example_velocity_policy = Some 10
   \<and> period_started example_velocity_policy = 0
   \<and> (0::nat) < length (rules example_velocity_policy)
   \<and> spent_so_far (rules (record_spend example_velocity_policy 0 40000 5000) ! 0) = 40000
   \<and> period_started (record_spend example_velocity_policy 0 40000 5000) \<noteq> 0
   \<and> fst (get_time_left 5601 (record_spend example_velocity_policy 0 40000 5000)) = Some (- 1)
   \<and> period_started (snd (get_time_left 5601 (record_spend example_velocity_policy 0 40000 5000))) = 0
   \<and> rules (snd (get_time_left 5601 (record_spend example_velocity_policy 0 40000 5000)))
        = rules example_velocity_policy"
proof -
  have h1: "period example_velocity_policy = Some 10"
    by (simp add: example_velocity_policy_def)
  have h2: "period_started example_velocity_policy = 0 \<or> period_started example_velocity_policy \<le> 5000"
    by (simp add: example_velocity_policy_def HSMPolicy_init_def)
  have h3: "0 < length (rules example_velocity_policy)"
    by (simp add: example_velocity_policy_def)
  show ?thesis
    using velocity_window_reset [OF h1 h2 h3, of 40000]
    by (simp add: example_velocity_policy_def HSMPolicy_init_def allow_all_rule_def)
qed

section \<open>Rule selection\<close>



section \<open>Refusal when the audit log cannot be saved\<close>

text \<open>
  C2. The digest is well-formed, so that the audit logger is entered at all. When the
  policy has \<open>must_log\<close> set and the logger could not open durable storage
  (\<open>is_unsaved\<close>), \<open>approve_transaction\<close> returns the refusal \<open>x\<close>; the call consists of
  \<open>get_time_left\<close>, entering the logger and the refusal line, so no rule's
  \<open>matches_transaction\<close> is evaluated, and the refusal is counted.
\<close>

theorem must_log_unsaved_refuses:
  assumes "psbt_sha \<noteq> [] \<and> length psbt_sha = 32"
    and "must_log hsm"
    and "is_unsaved (AuditLogger_enter E W sdr ''psbt'' psbt_sha)"
  shows "fst (approve_transaction E W sdr hsm p psbt_sha story) = Inr ''x''
    \<and> snd (snd (approve_transaction E W sdr hsm p psbt_sha story))
        = [Call_get_time_left, AuditLogger_entered False,
           Log (CHR 0x0A # ''REFUSED: Could not log details, and must_log is set'')]
    \<and> Call_matches_transaction k \<notin> set (snd (snd (approve_transaction E W sdr hsm p psbt_sha story)))
    \<and> refusals (fst (snd (approve_transaction E W sdr hsm p psbt_sha story))) = refusals hsm + 1"
proof -
  have r: "refusals (snd (get_time_left (time_at_query W) hsm)) = refusals hsm"
    by (simp add: get_time_left_def Let_def reset_period_def split: option.splits)
  show ?thesis
    using assms r
    by (simp add: approve_transaction_def Let_def split_beta refuse_def is_unsaved_def)
qed

theorem must_log_unsaved_refuses_witness:
  "(example_sha \<noteq> [] \<and> length example_sha = 32) \<and> must_log example_must_log_policy
   \<and> is_unsaved (AuditLogger_enter example_env example_no_card ''/sd'' ''psbt'' example_sha)
   \<and> fst (approve_transaction example_env example_no_card ''/sd'' example_must_log_policy
            example_psbt example_sha ''story'') = Inr ''x''
   \<and> Call_matches_transaction 0 \<notin> set (snd (snd (approve_transaction example_env example_no_card
            ''/sd'' example_must_log_policy example_psbt example_sha ''story'')))"
proof -
  have h1: "example_sha \<noteq> [] \<and> length example_sha = 32" by (simp add: example_sha_def)
  have h2: "must_log example_must_log_policy"
    by (simp add: example_must_log_policy_def local_pin_entered_def)
  have h3: "is_unsaved (AuditLogger_enter example_env example_no_card ''/sd'' ''psbt'' example_sha)"
    by (simp add: is_unsaved_def AuditLogger_enter_def example_no_card_def)
  show ?thesis
    using h1 h2 h3 must_log_unsaved_refuses [OF h1 h2 h3, of example_psbt "''story''" 0]
    by simp
qed

section \<open>Faults inside a decision\<close>




section \<open>When the local code is consumed\<close>




section \<open>The rule number in a failure reason\<close>

text \<open>
  C9 on the code. The document with one rule capped at 50000 loads; its rule, at
  position 0 of the list, gets \<open>index = 1\<close>. A transaction of 60000 fails that rule,
  and the reason recorded for it is tagged \<open>rule #2\<close>: the reason is built from
  \<^verbatim>\<open>rule.index+1\<close>, and \<open>index\<close> is already the position plus one.
\<close>

theorem failure_reason_rule_number_evaluated:
  "load example_env (HSMPolicy_init 7) example_capped_document = Inr example_capped_policy
   \<and> map index (rules example_capped_policy) = [1]
   \<and> fst (approve_transaction example_env example_call ''/sd'' example_capped_policy
            example_psbt_60000 example_sha ''story'') = Inr ''x''
   \<and> last_refusal (fst (snd (approve_transaction example_env example_call ''/sd''
            example_capped_policy example_psbt_60000 example_sha ''story'')))
        = Some ''Rejected: rule #2: hsm.py: too much out''"
proof -
  have l: "load example_env (HSMPolicy_init 7) example_capped_document = Inr example_capped_policy"
    by (simp add: load_def example_capped_document_def example_capped_policy_def pop_bool_def
        pop_deriv_list_def pop_list_def pop_int_def pop_string_def dict_pop_def bind_exn_def
        assert_exn_def assert_empty_dict_def truthy_string_option_def truthy_int_option_def
        ApprovalRule_init_def has_velocity_def allow_all_rule_def HSMPolicy_init_def
        range_checked_def MAX_SATS_def)
  have i: "map index (rules example_capped_policy) = [1]"
    by (simp add: example_capped_policy_def allow_all_rule_def)
  have r: "fst (approve_transaction example_env example_call ''/sd'' example_capped_policy
            example_psbt_60000 example_sha ''story'') = Inr ''x''"
    by code_simp
  have m: "last_refusal (fst (snd (approve_transaction example_env example_call ''/sd''
            example_capped_policy example_psbt_60000 example_sha ''story'')))
        = Some ''Rejected: rule #2: hsm.py: too much out''"
    by code_simp
  from l i r m show ?thesis by simp
qed

section \<open>Saving and loading a policy\<close>

text \<open>
  C7. \<^verbatim>\<open>cleanup_deriv_path\<close> leaves a cleaned path as it is. For every document that
  loads, \<open>save\<close> of the loaded policy returns a dictionary with no \<open>set_sl\<close> entry, and
  \<open>load\<close> of that dictionary succeeds: on the object the document was loaded into it
  gives the loaded policy with \<open>set_sl\<close> absent, and on any other object it sets the same
  rules, \<open>must_log\<close>, \<open>warnings_ok\<close>, \<open>msg_paths\<close>, \<open>share_xpubs\<close>, \<open>share_addrs\<close>,
  \<open>notes\<close>, \<open>period\<close> and \<open>allow_sl\<close>, and no \<open>set_sl\<close>.
\<close>

theorem save_load_round_trip:
  assumes "deriv_paths_canonical E" and "load E h0 doc = Inr hsm"
  shows "\<exists>rv. save hsm = Inr rv \<and> map_of rv ''set_sl'' = None
     \<and> load E h0 rv = Inr (hsm\<lparr> set_sl := None \<rparr>)
     \<and> load E h1 rv
         = Inr (h1\<lparr> must_log := must_log hsm, warnings_ok := warnings_ok hsm,
                    msg_paths := msg_paths hsm, share_xpubs := share_xpubs hsm,
                    share_addrs := share_addrs hsm, notes := notes hsm, period := period hsm,
                    allow_sl := allow_sl hsm, set_sl := None, rules := rules hsm \<rparr>)"
proof -
  from load_wf [OF assms] have wf: "policy_wf E hsm" .
  have "load E h0 (saved_document hsm) = Inr (hsm\<lparr> set_sl := None \<rparr>)"
    by (subst (2) load_frame [OF assms(2)]) (simp add: load_saved_document [OF wf])
  with save_saved_document [of hsm] load_saved_document [OF wf, of h1] show ?thesis by blast
qed

theorem save_load_round_trip_witness:
  "deriv_paths_canonical example_env
   \<and> load example_env (HSMPolicy_init 7) example_document = Inr example_loaded_policy
   \<and> set_sl example_loaded_policy = Some ''0123456789abcdef''
   \<and> (\<exists>rv. save example_loaded_policy = Inr rv \<and> map_of rv ''set_sl'' = None
         \<and> load example_env (HSMPolicy_init 7) rv = Inr (example_loaded_policy\<lparr> set_sl := None \<rparr>))"
proof -
  have s: "set_sl example_loaded_policy = Some ''0123456789abcdef''"
    by (simp add: example_loaded_policy_def)
  from save_load_round_trip [OF example_env_canonical example_document_loads, of "HSMPolicy_init 7"]
  obtain rv where "save example_loaded_policy = Inr rv" "map_of rv ''set_sl'' = None"
    "load example_env (HSMPolicy_init 7) rv = Inr (example_loaded_policy\<lparr> set_sl := None \<rparr>)"
    by blast
  with example_env_canonical example_document_loads s show ?thesis by blast
qed

end
